theory Spec2Isabelle
  imports Complex_Main "HOL-Library.Multiset"
begin

section \<open>Tables\<close>

text \<open>
  The program works on a pandas DataFrame. A cell of a table read by \<open>read_csv\<close> is an
  integer (in a column of dtype int64), a floating-point number (float64), a text (in a
  column that the reader could not type as numbers), or the missing value. Floating-point
  numbers are modelled as reals: rounding and infinities are not part of this model. A
  column of booleans (every cell \<open>True\<close> or \<open>False\<close>) carries no signal and is outside
  the model.
\<close>

datatype cell = Integer int | Float real | Str string | NaN

text \<open>A cell is a number when it is an integer or a floating-point number.\<close>

definition is_number :: "cell \<Rightarrow> bool" where
  "is_number v = (case v of Integer i \<Rightarrow> True | Float x \<Rightarrow> True | _ \<Rightarrow> False)"

definition is_text :: "cell \<Rightarrow> bool" where
  "is_text v = (case v of Str s \<Rightarrow> True | _ \<Rightarrow> False)"

text \<open>The value of a number.\<close>

definition num_of :: "cell \<Rightarrow> real" where
  "num_of v = (case v of Integer i \<Rightarrow> real_of_int i | Float x \<Rightarrow> x | _ \<Rightarrow> 0)"

text \<open>
  A row pairs each column name with its cell, in column order; a row of the table carries
  its index label. The frame keeps the column names of its own, since a table without
  rows still has columns.
\<close>

type_synonym row = "(string \<times> cell) list"

record frame =
  columns :: "string list"
  rows :: "(nat \<times> row) list"

text \<open>The exceptions of the program, each with its message.\<close>

datatype error = ValueError string | TypeError string | KeyError string
  | FileNotFoundError string | OtherError string

text \<open>\<open>df[c]\<close> at one row; a row that has no entry for the column reads as missing.\<close>

definition cell_of :: "row \<Rightarrow> string \<Rightarrow> cell" where
  "cell_of r c = (case map_of r c of Some v \<Rightarrow> v | None \<Rightarrow> NaN)"

text \<open>\<open>df[c]\<close>: the values of one column, in row order.\<close>

definition get_column :: "frame \<Rightarrow> string \<Rightarrow> cell list" where
  "get_column df c = map (\<lambda>(l, r). cell_of r c) (rows df)"

text \<open>
  \<open>df[c] = f(df)\<close> for an elementwise \<open>f\<close>: an existing column is replaced in place, a
  new one is appended as the last column.
\<close>

definition assign :: "string \<Rightarrow> (row \<Rightarrow> cell) \<Rightarrow> frame \<Rightarrow> frame" where
  "assign c f df =
     (if c \<in> set (columns df)
      then df\<lparr>rows := map (\<lambda>(l, r). (l, map (\<lambda>(n, v). (n, if n = c then f r else v)) r)) (rows df)\<rparr>
      else df\<lparr>columns := columns df @ [c],
              rows := map (\<lambda>(l, r). (l, r @ [(c, f r)])) (rows df)\<rparr>)"

subsection \<open>Library operations used by the loader\<close>

text \<open>
  \<open>pd.to_numeric(_, errors='coerce')\<close> on one cell. A column that is numeric already comes
  back as it is: an integer stays an integer, a floating-point number stays one. Only a
  text is converted, to floating point: the library's parser of a text into a number is
  the parameter \<open>num\<close>, and a text it rejects becomes the missing value. (The reader leaves
  a column as text only when some cell of it is not a number, and a missing value makes
  the converted column float64.)
\<close>

fun to_numeric :: "(string \<Rightarrow> real option) \<Rightarrow> cell \<Rightarrow> cell" where
  "to_numeric num (Integer i) = Integer i"
| "to_numeric num (Float x) = Float x"
| "to_numeric num (Str s) = (case num s of Some x \<Rightarrow> Float x | None \<Rightarrow> NaN)"
| "to_numeric num NaN = NaN"

text \<open>\<open>df.dropna(subset=[c])\<close>: the rows whose cell in column \<open>c\<close> is missing are removed.\<close>

definition dropna :: "string \<Rightarrow> frame \<Rightarrow> frame" where
  "dropna c df = df\<lparr>rows := filter (\<lambda>(l, r). cell_of r c \<noteq> NaN) (rows df)\<rparr>"

text \<open>The sort key of a row: the number in the column (text columns are not sorted here).\<close>

definition sort_key_of :: "string \<Rightarrow> nat \<times> row \<Rightarrow> real" where
  "sort_key_of c lr = num_of (cell_of (snd lr) c)"

text \<open>
  \<open>df.sort_values(c)\<close>, ascending, missing values last. The call in the loader passes no
  \<open>kind\<close>, so the library sorts with its default algorithm (\<open>kind='quicksort'\<close>), which is
  the parameter \<open>argsort\<close>: from the keys it returns the positions in sorted order.
\<close>

definition sort_values :: "(real list \<Rightarrow> nat list) \<Rightarrow> string \<Rightarrow> frame \<Rightarrow> frame" where
  "sort_values argsort c df =
     (let present = filter (\<lambda>(l, r). cell_of r c \<noteq> NaN) (rows df);
          missing = filter (\<lambda>(l, r). cell_of r c = NaN) (rows df)
      in df\<lparr>rows := map ((!) present) (argsort (map (sort_key_of c) present)) @ missing\<rparr>)"

text \<open>
  What the library promises of its default sort: the positions returned are a rearrangement
  of all positions, and the keys read in that order ascend. It promises nothing on the
  order of equal keys.
\<close>

definition is_argsort :: "(real list \<Rightarrow> nat list) \<Rightarrow> bool" where
  "is_argsort argsort \<longleftrightarrow>
     (\<forall>ks. mset (argsort ks) = mset [0..<length ks] \<and> sorted (map ((!) ks) (argsort ks)))"

text \<open>
  Two sorts that keep the promise, used where a table is evaluated. Insertion sort on the
  positions keeps equal keys in their order. Insertion sort on the positions taken from
  the last to the first returns equal keys in reverse, as a sort that exchanges keys over
  a distance can.
\<close>

definition stable_argsort :: "real list \<Rightarrow> nat list" where
  "stable_argsort ks = sort_key ((!) ks) [0..<length ks]"


text \<open>\<open>df[cs]\<close> for a list of column names: those columns, in the order of the list.\<close>

definition select_columns :: "string list \<Rightarrow> frame \<Rightarrow> frame" where
  "select_columns cs df =
     \<lparr>columns = cs, rows = map (\<lambda>(l, r). (l, map (\<lambda>c. (c, cell_of r c)) cs)) (rows df)\<rparr>"

text \<open>\<open>xs[::k]\<close>: the elements at positions 0, k, 2k, ...\<close>

fun stride :: "nat \<Rightarrow> 'a list \<Rightarrow> 'a list" where
  "stride k [] = []"
| "stride k (x # xs) = x # stride k (drop (k - 1) xs)"

text \<open>\<open>df.reset_index(drop=True)\<close>: the rows are labelled 0, 1, 2, ... anew.\<close>

definition reset_index :: "frame \<Rightarrow> frame" where
  "reset_index df = df\<lparr>rows := zip [0..<length (rows df)] (map snd (rows df))\<rparr>"

section \<open>load_data\<close>

definition ignore_cols :: "string set" where
  "ignore_cols = {''X3:'', ''Trigger'', ''Time_Offset'', ''ADC_Status'', ''ADC_Sequence'',
                  ''Event'', ''Comments''}"

text \<open>
  The loop over the columns that converts every column but \<open>Time\<close>.
\<close>

definition convert_others :: "(string \<Rightarrow> real option) \<Rightarrow> frame \<Rightarrow> frame" where
  "convert_others num df =
     foldl (\<lambda>d c. if c \<noteq> ''Time'' then assign c (\<lambda>r. to_numeric num (cell_of r c)) d else d)
       df (columns df)"

text \<open>
  The table before the decimation step (lines 21 to 29 of the source): \<open>Time\<close> converted,
  rows without a time dropped, rows sorted by time, ignored columns removed, the other
  columns converted.
\<close>

definition cleaned :: "(real list \<Rightarrow> nat list) \<Rightarrow> (string \<Rightarrow> real option) \<Rightarrow> frame \<Rightarrow> frame" where
  "cleaned argsort num df =
     (let df1 = assign ''Time'' (\<lambda>r. to_numeric num (cell_of r ''Time'')) df;
          df2 = sort_values argsort ''Time'' (dropna ''Time'' df1);
          df3 = select_columns (filter (\<lambda>c. c \<notin> ignore_cols) (columns df2)) df2
      in convert_others num df3)"

definition decimate :: "int \<Rightarrow> frame \<Rightarrow> frame" where
  "decimate step df = (if step > 1 then df\<lparr>rows := stride (nat step) (rows df)\<rparr> else df)"

text \<open>
  \<open>load_data\<close>, from the table that \<open>read_csv\<close> returned. The messages it prints are
  left out.
\<close>

definition load_data ::
  "(real list \<Rightarrow> nat list) \<Rightarrow> (string \<Rightarrow> real option) \<Rightarrow> frame \<Rightarrow> int \<Rightarrow> error + frame" where
  "load_data argsort num df step =
     (if ''Time'' \<notin> set (columns df)
      then Inl (ValueError ''Expected a 'Time' column (seconds).'')
      else Inr (reset_index (decimate step (cleaned argsort num df))))"

section \<open>create_plot\<close>

definition eeg_channels :: "string list" where
  "eeg_channels = [''P3'', ''C3'', ''F3'', ''Fz'', ''F4'', ''C4'', ''P4'', ''Cz'', ''A1'', ''Fp1'',
                   ''Fp2'', ''T3'', ''T5'', ''O1'', ''O2'', ''F7'', ''F8'', ''A2'', ''T6'', ''T4'', ''Pz'']"

definition ecg_channels :: "string list" where
  "ecg_channels = [''X1:LEOG'', ''X2:REOG'']"

definition cm_channels :: "string list" where
  "cm_channels = [''CM'']"

text \<open>
  The channels of a known list that the table has, narrowed to the caller's list when that
  list is given and not empty (\<open>if channels:\<close>).
\<close>

definition available :: "string list \<Rightarrow> frame \<Rightarrow> string list option \<Rightarrow> string list" where
  "available known df channels =
     (let av = filter (\<lambda>ch. ch \<in> set (columns df)) known
      in case channels of
           None \<Rightarrow> av
         | Some cs \<Rightarrow> if cs \<noteq> [] then filter (\<lambda>ch. ch \<in> set cs) av else av)"

text \<open>
  \<open>df[ch] / 1000.0\<close> on one cell: the quotient is a floating-point number, also of an
  integer. The missing value stays missing; a column that holds a text cannot be divided,
  and the division raises.
\<close>

definition scale_mv :: "cell \<Rightarrow> cell" where
  "scale_mv v = (case v of Integer i \<Rightarrow> Float (real_of_int i / 1000) | Float x \<Rightarrow> Float (x / 1000)
                 | _ \<Rightarrow> v)"

definition has_text :: "frame \<Rightarrow> string \<Rightarrow> bool" where
  "has_text df c = list_ex is_text (get_column df c)"

text \<open>
  The loop \<open>for ch in available_ecg: df[ch + '_mV'] = df[ch] / 1000.0\<close>. It writes into
  the caller's table; when a division raises, the columns written so far stay.
\<close>

fun to_mv :: "string list \<Rightarrow> frame \<Rightarrow> frame \<times> error option" where
  "to_mv [] df = (df, None)"
| "to_mv (ch # chs) df =
     (if has_text df ch then (df, Some (TypeError ''unsupported operand type(s) for /''))
      else to_mv chs (assign (ch @ ''_mV'') (\<lambda>r. scale_mv (cell_of r ch)) df))"

text \<open>A trace of the figure: the data handed to the charting library.\<close>

record trace =
  trace_name :: string
  trace_x :: "cell list"
  trace_y :: "cell list"

text \<open>
  The figure, as far as it carries data: the traces of the three groups, the unit labels,
  the range of the ECG axis and the initial time window. The constant layout (colours,
  legend, range slider, buttons) is left out.
\<close>

record figure =
  fig_title :: string
  eeg_traces :: "trace list"
  ecg_traces :: "trace list"
  cm_traces :: "trace list"
  ecg_unit_label :: string
  cm_unit_label :: string
  ecg_range :: "(cell \<times> cell) option"
  x_range :: "(real \<times> real) option"

definition make_traces :: "frame \<Rightarrow> (string \<times> string) list \<Rightarrow> trace list" where
  "make_traces df cols =
     map (\<lambda>(channel, data_col).
            \<lparr>trace_name = channel, trace_x = get_column df ''Time'',
             trace_y = get_column df data_col\<rparr>) cols"

text \<open>
  The padded range of the ECG axis from \<open>df[ecg_data_cols].values\<close>: the minimum and the
  maximum of an array without elements raise, a missing value makes both missing.
\<close>

definition ecg_axis_range :: "frame \<Rightarrow> string list \<Rightarrow> error + cell \<times> cell" where
  "ecg_axis_range df cols =
     (let vals = concat (map (get_column df) cols)
      in if vals = []
         then Inl (ValueError ''zero-size array to reduction operation minimum which has no identity'')
         else if list_ex is_text vals then Inl (TypeError ''unsupported operand type(s)'')
         else if NaN \<in> set vals then Inr (NaN, NaN)
         else let xs = map num_of vals;
                  ecg_min = fold min xs (hd xs);
                  ecg_max = fold max xs (hd xs);
                  ecg_padding = (ecg_max - ecg_min) * 0.1
              in Inr (Float (ecg_min - ecg_padding), Float (ecg_max + ecg_padding)))"

text \<open>The part of \<open>create_plot\<close> after the unit conversion; it only reads the table.\<close>

definition render ::
  "frame \<Rightarrow> string \<Rightarrow> string list \<Rightarrow> (string \<times> string) list \<Rightarrow> (string \<times> string) list \<Rightarrow>
   string \<Rightarrow> string \<Rightarrow> (real \<times> real) option \<Rightarrow> error + figure" where
  "render df title available_eeg ecg_pairs cm_pairs ecg_label cm_label initial_range =
     (if (available_eeg \<noteq> [] \<or> ecg_pairs \<noteq> [] \<or> cm_pairs \<noteq> []) \<and> ''Time'' \<notin> set (columns df)
      then Inl (KeyError ''Time'')
      else case (if ecg_pairs \<noteq> []
                 then map_sum id Some (ecg_axis_range df (map snd ecg_pairs))
                 else Inr None) of
             Inl e \<Rightarrow> Inl e
           | Inr rng \<Rightarrow>
               Inr \<lparr>fig_title = title,
                    eeg_traces = make_traces df (zip available_eeg available_eeg),
                    ecg_traces = make_traces df ecg_pairs,
                    cm_traces = make_traces df cm_pairs,
                    ecg_unit_label = ecg_label,
                    cm_unit_label = cm_label,
                    ecg_range = rng,
                    x_range = initial_range\<rparr>)"

text \<open>
  \<open>create_plot\<close>. The table is the caller's object, so the result pairs the table as the
  call leaves it with the figure or the exception.
\<close>

definition create_plot ::
  "frame \<Rightarrow> string \<Rightarrow> string \<Rightarrow> string list option \<Rightarrow> (real \<times> real) option \<Rightarrow>
   frame \<times> (error + figure)" where
  "create_plot df title ecg_units channels initial_range =
     (let available_eeg = available eeg_channels df channels;
          available_ecg = available ecg_channels df channels;
          available_cm = available cm_channels df channels
      in case (if ecg_units = ''mv'' then to_mv available_ecg df else (df, None)) of
           (df1, Some e) \<Rightarrow> (df1, Inl e)
         | (df1, None) \<Rightarrow>
             (let ecg_data_cols = (if ecg_units = ''mv'' then map (\<lambda>ch. ch @ ''_mV'') available_ecg
                                   else available_ecg);
                  ecg_unit = (if ecg_units = ''mv'' then ''mV'' else ''uV'')
              in if ecg_units = ''mv'' \<and> available_cm \<noteq> []
                 then if has_text df1 ''CM''
                      then (df1, Inl (TypeError ''unsupported operand type(s) for /''))
                      else (let df2 = assign ''CM_mV'' (\<lambda>r. scale_mv (cell_of r ''CM'')) df1
                            in (df2, render df2 title available_eeg (zip available_ecg ecg_data_cols)
                                       (zip available_cm [''CM_mV'']) ecg_unit ''mV'' initial_range))
                 else (df1, render df1 title available_eeg (zip available_ecg ecg_data_cols)
                              (zip available_cm available_cm) ecg_unit ''uV'' initial_range)))"

section \<open>save_plot\<close>

text \<open>
  The files hold what was written to them: a text, such as a recording, or one of the
  three exports of a figure. Whether a call into the operating system or the charting
  library succeeds is decided outside the program: the record \<open>outcomes\<close> says, for each
  of the four calls of \<open>save_plot\<close>, whether it raises and what. What they raise is an
  exception of class \<open>Exception\<close>, the class that the handler of \<open>save_plot\<close> catches. A
  call that raises writes nothing.
\<close>

datatype artifact = Text string | Html figure | Png figure | Pdf figure

record world =
  files :: "string \<Rightarrow> artifact option"
  printed :: "string list"

record outcomes =
  makedirs_raises :: "error option"
  write_html_raises :: "error option"
  write_png_raises :: "error option"
  write_pdf_raises :: "error option"

definition path_join :: "string \<Rightarrow> string \<Rightarrow> string" where
  "path_join d f = (if d = [] then f else if last d = CHR ''/'' then d @ f else d @ ''/'' @ f)"

definition message :: "error \<Rightarrow> string" where
  "message e = (case e of ValueError m \<Rightarrow> m | TypeError m \<Rightarrow> m | KeyError m \<Rightarrow> m
                  | FileNotFoundError m \<Rightarrow> m | OtherError m \<Rightarrow> m)"

definition print :: "string \<Rightarrow> world \<Rightarrow> world" where
  "print m w = w\<lparr>printed := printed w @ [m]\<rparr>"

definition write_file :: "string \<Rightarrow> artifact \<Rightarrow> world \<Rightarrow> world" where
  "write_file p a w = w\<lparr>files := (files w)(p \<mapsto> a)\<rparr>"

definition quoted :: "string \<Rightarrow> string" where
  "quoted s = [CHR 0x27] @ s @ [CHR 0x27]"

text \<open>
  \<open>os.makedirs(output_dir, exist_ok=True)\<close>: the empty path names no directory and the
  call raises; for every other path the operating system decides.
\<close>

definition makedirs :: "outcomes \<Rightarrow> string \<Rightarrow> error option" where
  "makedirs io d =
     (if d = [] then Some (FileNotFoundError (''[Errno 2] No such file or directory: '' @ quoted d))
      else makedirs_raises io)"

text \<open>The handler of \<open>except Exception as e\<close>: two printed lines, nothing raised.\<close>

definition static_skipped :: "error \<Rightarrow> world \<Rightarrow> world" where
  "static_skipped e w =
     print ''To enable static exports, install: pip install --upgrade kaleido''
       (print (''Note: Static exports require 'kaleido'. Skipping PNG/PDF. Error: '' @ message e) w)"

definition save_plot :: "outcomes \<Rightarrow> figure \<Rightarrow> string \<Rightarrow> world \<Rightarrow> world \<times> (error + unit)" where
  "save_plot io fig output_dir w =
     (case makedirs io output_dir of
        Some e \<Rightarrow> (w, Inl e)
      | None \<Rightarrow>
         (let html_path = path_join output_dir ''multichannel_plot.html''
          in case write_html_raises io of
               Some e \<Rightarrow> (w, Inl e)
             | None \<Rightarrow>
                (let w1 = print (''Interactive plot saved to: '' @ html_path)
                            (write_file html_path (Html fig) w);
                     png_path = path_join output_dir ''multichannel_plot.png''
                 in case write_png_raises io of
                      Some e \<Rightarrow> (static_skipped e w1, Inr ())
                    | None \<Rightarrow>
                       (let w2 = print (''Static plot saved to: '' @ png_path)
                                   (write_file png_path (Png fig) w1);
                            pdf_path = path_join output_dir ''multichannel_plot.pdf''
                        in case write_pdf_raises io of
                             Some e \<Rightarrow> (static_skipped e w2, Inr ())
                           | None \<Rightarrow>
                              (print (''PDF plot saved to: '' @ pdf_path)
                                 (write_file pdf_path (Pdf fig) w2), Inr ())))))"

section \<open>load_data, called on a file\<close>

text \<open>
  The whole of \<open>load_data(filepath, step)\<close>: the file is read by \<open>pd.read_csv\<close>, the table is
  made as above, and lines are printed on the way. The library's reader is the parameter
  \<open>read_csv\<close>, from what the file holds to a table or an exception; how Python writes an
  integer and a number with three decimals is the parameter \<open>fmt\<close>.
\<close>

record formats =
  str_int :: "int \<Rightarrow> string"
  fixed3 :: "cell \<Rightarrow> string"

text \<open>
  \<open>Series.min()\<close> and \<open>Series.max()\<close>: missing values are skipped, and of no value at all
  the result is missing.
\<close>

definition series_min :: "cell list \<Rightarrow> cell" where
  "series_min vs =
     (case filter is_number vs of
        [] \<Rightarrow> NaN
      | x # xs \<Rightarrow> fold (\<lambda>v m. if num_of v < num_of m then v else m) xs x)"

definition series_max :: "cell list \<Rightarrow> cell" where
  "series_max vs =
     (case filter is_number vs of
        [] \<Rightarrow> NaN
      | x # xs \<Rightarrow> fold (\<lambda>v m. if num_of m < num_of v then v else m) xs x)"

text \<open>The lines printed after the table is made.\<close>

definition load_messages :: "formats \<Rightarrow> frame \<Rightarrow> int \<Rightarrow> string list" where
  "load_messages fmt df step =
     (if step > 1 then [''Downsampled by factor '' @ str_int fmt step] else [])
     @ [''Data loaded successfully!'',
        ''Shape: ('' @ str_int fmt (int (length (rows df))) @ '', ''
           @ str_int fmt (int (length (columns df))) @ '')'',
        ''Time range: '' @ fixed3 fmt (series_min (get_column df ''Time'')) @ ''s to ''
           @ fixed3 fmt (series_max (get_column df ''Time'')) @ ''s'']"

definition load_data_io ::
  "(artifact \<Rightarrow> error + frame) \<Rightarrow> formats \<Rightarrow> (real list \<Rightarrow> nat list) \<Rightarrow> (string \<Rightarrow> real option) \<Rightarrow>
   string \<Rightarrow> int \<Rightarrow> world \<Rightarrow> world \<times> (error + frame)" where
  "load_data_io read_csv fmt argsort num filepath step w =
     (let w1 = print (''Loading data from: '' @ filepath) w
      in case files w1 filepath of
           None \<Rightarrow>
             (w1, Inl (FileNotFoundError (''[Errno 2] No such file or directory: '' @ quoted filepath)))
         | Some a \<Rightarrow>
             (case read_csv a of
                Inl e \<Rightarrow> (w1, Inl e)
              | Inr df \<Rightarrow>
                 (case load_data argsort num df step of
                    Inl e \<Rightarrow> (w1, Inl e)
                  | Inr out \<Rightarrow> (foldl (\<lambda>w m. print m w) w1 (load_messages fmt out step), Inr out))))"

section \<open>A small recording\<close>

text \<open>
  A table of four rows in the shape of the specification's scenario, out of time order,
  as the reader returns it: \<open>Time\<close> and \<open>Fp1\<close> each hold a cell that is not a number, so
  they are text columns; \<open>Trigger\<close> and \<open>CM\<close> are integer columns. The parser accepts the
  numerals that occur in it.
\<close>

definition ex_table :: frame where
  "ex_table = \<lparr>columns = [''Time'', ''Fp1'', ''Trigger'', ''CM''],
     rows = [(0, [(''Time'', Str ''0.2''), (''Fp1'', Str ''3.0''), (''Trigger'', Integer 9), (''CM'', Integer 5400)]),
             (1, [(''Time'', Str ''x''), (''Fp1'', Str ''2.0''), (''Trigger'', Integer 9), (''CM'', Integer 5300)]),
             (2, [(''Time'', Str ''0.1''), (''Fp1'', Str ''bad''), (''Trigger'', Integer 9), (''CM'', Integer 5200)]),
             (3, [(''Time'', Str ''0.0''), (''Fp1'', Str ''1.0''), (''Trigger'', Integer 9), (''CM'', Integer 5000)])]\<rparr>"

definition ex_num :: "string \<Rightarrow> real option" where
  "ex_num s = (if s = ''0.0'' then Some 0 else if s = ''0.1'' then Some 0.1
               else if s = ''0.2'' then Some 0.2 else if s = ''1.0'' then Some 1
               else if s = ''2.0'' then Some 2 else if s = ''3.0'' then Some 3 else None)"

section \<open>Notions for stating the properties\<close>

text \<open>A row has a time when the conversion of its \<open>Time\<close> cell is not missing.\<close>

definition time_ok :: "(string \<Rightarrow> real option) \<Rightarrow> nat \<times> row \<Rightarrow> bool" where
  "time_ok num lr \<longleftrightarrow> to_numeric num (cell_of (snd lr) ''Time'') \<noteq> NaN"

text \<open>The time of a row as a number.\<close>

definition time_key :: "(string \<Rightarrow> real option) \<Rightarrow> nat \<times> row \<Rightarrow> real" where
  "time_key num lr = num_of (to_numeric num (cell_of (snd lr) ''Time''))"

text \<open>The columns of a table that are not in the ignore-set, in their order.\<close>

definition kept_columns :: "frame \<Rightarrow> string list" where
  "kept_columns df = filter (\<lambda>c. c \<notin> ignore_cols) (columns df)"

text \<open>A row restricted to the columns \<open>cs\<close>, each cell converted.\<close>

definition clean_row :: "(string \<Rightarrow> real option) \<Rightarrow> string list \<Rightarrow> row \<Rightarrow> row" where
  "clean_row num cs r = map (\<lambda>c. (c, to_numeric num (cell_of r c))) cs"

text \<open>One round of the loop of \<open>convert_others\<close>, on one row.\<close>

definition conv_step :: "(string \<Rightarrow> real option) \<Rightarrow> string \<Rightarrow> row \<Rightarrow> row" where
  "conv_step num c r =
     (if c \<noteq> ''Time'' then map (\<lambda>(n, v). (n, if n = c then to_numeric num (cell_of r c) else v)) r else r)"

text \<open>Line 21 on one row: the \<open>Time\<close> cell converted, the others kept.\<close>

definition time_converted :: "(string \<Rightarrow> real option) \<Rightarrow> nat \<times> row \<Rightarrow> nat \<times> row" where
  "time_converted num lr =
     (fst lr, map (\<lambda>(n, v). (n, if n = ''Time'' then to_numeric num (cell_of (snd lr) ''Time'') else v)) (snd lr))"

text \<open>Line 22: the rows with a time, in the order the sort gives them.\<close>

definition sorted_rows ::
  "(real list \<Rightarrow> nat list) \<Rightarrow> (string \<Rightarrow> real option) \<Rightarrow> frame \<Rightarrow> (nat \<times> row) list" where
  "sorted_rows argsort num df =
     (let present = filter (time_ok num) (rows df)
      in map ((!) present) (argsort (map (time_key num) present)))"


text \<open>
  A table is numeric when each row has exactly the columns of the table and no cell is a
  text; the tables that \<open>load_data\<close> returns are numeric.
\<close>

definition numeric_table :: "frame \<Rightarrow> bool" where
  "numeric_table df \<longleftrightarrow>
     (\<forall>r \<in> set (map snd (rows df)). map fst r = columns df \<and> (\<forall>(n, v) \<in> set r. \<not> is_text v))"

text \<open>A loaded table with an ECG channel and the reference channel.\<close>

definition ex_ecg :: frame where
  "ex_ecg = \<lparr>columns = [''Time'', ''Fp1'', ''X1:LEOG'', ''CM''],
     rows = [(0, [(''Time'', Float 0), (''Fp1'', Float 1), (''X1:LEOG'', Integer 1500), (''CM'', Integer 5000)]),
             (1, [(''Time'', Float 0.1), (''Fp1'', NaN), (''X1:LEOG'', Integer (-250)), (''CM'', Integer 5200)])]\<rparr>"

text \<open>The columns that \<open>create_plot\<close> writes in mode \<open>mv\<close>, in the order it writes them.\<close>

definition written_columns :: "frame \<Rightarrow> string list option \<Rightarrow> string list" where
  "written_columns df channels =
     map (\<lambda>ch. ch @ ''_mV'') (available ecg_channels df channels)
       @ (if available cm_channels df channels \<noteq> [] then [''CM_mV''] else [])"

text \<open>The columns that \<open>create_plot\<close> may write.\<close>

definition mv_columns :: "string set" where
  "mv_columns = {''X1:LEOG_mV'', ''X2:REOG_mV'', ''CM_mV''}"

text \<open>A figure, a run without the static backend, and an empty output directory.\<close>

definition ex_fig :: figure where
  "ex_fig = \<lparr>fig_title = ''t'', eeg_traces = [], ecg_traces = [], cm_traces = [],
             ecg_unit_label = ''mV'', cm_unit_label = ''uV'', ecg_range = None, x_range = None\<rparr>"

definition no_kaleido :: outcomes where
  "no_kaleido = \<lparr>makedirs_raises = None, write_html_raises = None,
                 write_png_raises = Some (ValueError ''kaleido is required''), write_pdf_raises = None\<rparr>"

definition empty_world :: world where
  "empty_world = \<lparr>files = Map.empty, printed = []\<rparr>"

text \<open>A run in which no call raises.\<close>

definition all_ok :: outcomes where
  "all_ok = \<lparr>makedirs_raises = None, write_html_raises = None,
             write_png_raises = None, write_pdf_raises = None\<rparr>"

text \<open>The line that reports a skipped static export.\<close>

definition static_note :: "error \<Rightarrow> string" where
  "static_note e = ''Note: Static exports require 'kaleido'. Skipping PNG/PDF. Error: '' @ message e"

section \<open>Properties of load_data\<close>

text \<open>
  C1. A table without a column named exactly \<open>Time\<close> makes \<open>load_data\<close> raise (the
  \<open>ValueError\<close> that the specification calls SchemaError): the result is the error, and
  so it is no table.
\<close>

theorem load_data_no_time:
  assumes "''Time'' \<notin> set (columns df)"
  shows "load_data argsort num df step = Inl (ValueError ''Expected a 'Time' column (seconds).'')
         \<and> (\<forall>t. load_data argsort num df step \<noteq> Inr t)"
  using assms by (simp add: load_data_def)

theorem load_data_no_time_witness:
  "''Time'' \<notin> set (columns \<lparr>columns = [''time'', ''Fp1''], rows = [(0, [(''time'', Float 0), (''Fp1'', Float 1)])]\<rparr>)
   \<and> load_data stable_argsort (\<lambda>s. None)
        \<lparr>columns = [''time'', ''Fp1''], rows = [(0, [(''time'', Float 0), (''Fp1'', Float 1)])]\<rparr> 1
      = Inl (ValueError ''Expected a 'Time' column (seconds).'')"
  using load_data_no_time [of "\<lparr>columns = [''time'', ''Fp1''], rows = [(0, [(''time'', Float 0), (''Fp1'', Float 1)])]\<rparr>"
      stable_argsort "\<lambda>s. None" 1]
  by simp

subsection \<open>Decimation\<close>

lemma length_stride: "0 < k \<Longrightarrow> length (stride k xs) = (length xs + k - 1) div k"
proof (induction k xs rule: stride.induct)
  case (1 k)
  then show ?case by simp
next
  case (2 k x xs)
  have "length (stride k (drop (k - 1) xs)) = (length xs - (k - 1) + k - 1) div k"
    using 2 by simp
  also have "\<dots> = length xs div k"
  proof (cases "k - 1 \<le> length xs")
    case True
    then show ?thesis using 2(2) by simp
  next
    case False
    then show ?thesis by simp
  qed
  finally show ?case using 2(2) by simp
qed

lemma nth_stride: "0 < k \<Longrightarrow> i < length (stride k xs) \<Longrightarrow> stride k xs ! i = xs ! (i * k)"
proof (induction k xs arbitrary: i rule: stride.induct)
  case (1 k)
  then show ?case by simp
next
  case (2 k x xs)
  show ?case
  proof (cases i)
    case 0
    then show ?thesis by simp
  next
    case (Suc j)
    with 2(3) have j: "j < length (stride k (drop (k - 1) xs))" by simp
    then have ne: "drop (k - 1) xs \<noteq> []" by auto
    then have le: "k - 1 \<le> length xs" by simp
    have "stride k (drop (k - 1) xs) ! j = drop (k - 1) xs ! (j * k)"
      using 2(1)[OF 2(2) j] .
    also have "\<dots> = xs ! (k - 1 + j * k)" using le by simp
    finally show ?thesis using Suc 2(2) by (simp add: nth_Cons')
  qed
qed

lemma ceil_div:
  assumes "0 < k"
  shows "int ((n + k - 1) div k) = \<lceil>real n / real k\<rceil>"
proof -
  define q where "q = (n + k - 1) div k"
  define r where "r = (n + k - 1) mod k"
  have eq: "n + k - 1 = q * k + r" by (simp add: q_def r_def)
  have r: "r < k" using assms by (simp add: r_def)
  have up: "n \<le> q * k" using eq r by linarith
  have lo: "q * k < n + k" using eq assms by linarith
  have "real n \<le> real (q * k)" using up by (simp only: of_nat_le_iff)
  then have 1: "real n / real k \<le> real q" using assms by (simp add: pos_divide_le_eq)
  have "real (q * k) < real (n + k)" using lo by (simp only: of_nat_less_iff)
  then have "(real q - 1) * real k < real n" by (simp add: algebra_simps)
  then have 2: "real q - 1 < real n / real k" using assms by (simp add: pos_less_divide_eq)
  have "\<lceil>real n / real k\<rceil> = int q"
    by (rule ceiling_unique) (use 1 2 in simp_all)
  then show ?thesis by (simp add: q_def)
qed

lemma reset_index_columns: "columns (reset_index d) = columns d"
  by (simp add: reset_index_def)

lemma reset_index_length: "length (rows (reset_index d)) = length (rows d)"
  by (simp add: reset_index_def)

lemma reset_index_labels: "map fst (rows (reset_index d)) = [0..<length (rows d)]"
  by (simp add: reset_index_def)

lemma reset_index_rows: "map snd (rows (reset_index d)) = map snd (rows d)"
  by (simp add: reset_index_def)

lemma reset_index_nth: "i < length (rows d) \<Longrightarrow> snd (rows (reset_index d) ! i) = snd (rows d ! i)"
  by (simp add: reset_index_def)

lemma decimate_columns: "columns (decimate k d) = columns d"
  by (simp add: decimate_def)

lemma decimate_length:
  "1 \<le> k \<Longrightarrow> int (length (rows (decimate k d))) = \<lceil>real (length (rows d)) / real_of_int k\<rceil>"
proof (cases "1 < k")
  case True
  then have "0 < nat k" by simp
  from ceil_div[OF this, of "length (rows d)"] True show ?thesis
    by (simp add: decimate_def length_stride)
next
  case False
  moreover assume "1 \<le> k"
  ultimately have "k = 1" by simp
  then show ?thesis by (simp add: decimate_def)
qed

lemma decimate_nth:
  "1 \<le> k \<Longrightarrow> i < length (rows (decimate k d)) \<Longrightarrow> rows (decimate k d) ! i = rows d ! (i * nat k)"
  by (cases "1 < k") (simp_all add: decimate_def nth_stride)

text \<open>
  C3. With a \<open>Time\<close> column and a step \<open>k \<ge> 1\<close>, the loader returns a table with the
  columns of the cleaned table, \<open>\<lceil>n / k\<rceil>\<close> of its \<open>n\<close> rows, row \<open>i\<close> being the cleaned
  row \<open>i * k\<close>, and the labels 0, 1, 2, ... whether or not rows were left out.
\<close>

theorem load_data_decimation:
  assumes "''Time'' \<in> set (columns df)" and "1 \<le> k"
  shows "\<exists>out. load_data argsort num df k = Inr out
      \<and> columns out = columns (cleaned argsort num df)
      \<and> int (length (rows out)) = \<lceil>real (length (rows (cleaned argsort num df))) / real_of_int k\<rceil>
      \<and> (\<forall>i < length (rows out). snd (rows out ! i) = snd (rows (cleaned argsort num df) ! (i * nat k)))
      \<and> map fst (rows out) = [0..<length (rows out)]"
proof -
  let ?pre = "cleaned argsort num df"
  let ?out = "reset_index (decimate k ?pre)"
  have "load_data argsort num df k = Inr ?out" using assms(1) by (simp add: load_data_def)
  moreover have "columns ?out = columns ?pre"
    by (simp add: reset_index_columns decimate_columns)
  moreover have "int (length (rows ?out)) = \<lceil>real (length (rows ?pre)) / real_of_int k\<rceil>"
    using decimate_length[OF assms(2)] by (simp add: reset_index_length)
  moreover have "\<forall>i < length (rows ?out). snd (rows ?out ! i) = snd (rows ?pre ! (i * nat k))"
    using decimate_nth[OF assms(2)] by (simp add: reset_index_length reset_index_nth)
  moreover have "map fst (rows ?out) = [0..<length (rows ?out)]"
    by (simp add: reset_index_labels reset_index_length)
  ultimately show ?thesis by blast
qed

theorem load_data_decimation_witness:
  "''Time'' \<in> set (columns ex_table) \<and> (1::int) \<le> 2
   \<and> (\<exists>out. load_data stable_argsort ex_num ex_table 2 = Inr out
      \<and> columns out = columns (cleaned stable_argsort ex_num ex_table)
      \<and> int (length (rows out)) = \<lceil>real (length (rows (cleaned stable_argsort ex_num ex_table))) / real_of_int 2\<rceil>
      \<and> (\<forall>i < length (rows out). snd (rows out ! i) = snd (rows (cleaned stable_argsort ex_num ex_table) ! (i * nat 2)))
      \<and> map fst (rows out) = [0..<length (rows out)])"
proof -
  have a: "''Time'' \<in> set (columns ex_table)" by (simp add: ex_table_def)
  have b: "(1::int) \<le> 2" by simp
  from load_data_decimation [OF a b, of stable_argsort ex_num] a b show ?thesis by blast
qed

text \<open>
  C10. A step of 1 or less (0 and the negative steps among them) decimates nothing: the
  call returns what the call with step 1 returns, and it returns a table whenever the
  input has a \<open>Time\<close> column.
\<close>

theorem load_data_step_le_1:
  assumes "step \<le> 1"
  shows "load_data argsort num df step = load_data argsort num df 1
       \<and> (''Time'' \<in> set (columns df) \<longrightarrow> (\<exists>t. load_data argsort num df step = Inr t))"
  using assms by (simp add: load_data_def decimate_def)

theorem load_data_step_le_1_witness:
  "(0::int) \<le> 1 \<and> load_data stable_argsort ex_num ex_table 0 = load_data stable_argsort ex_num ex_table 1
   \<and> ''Time'' \<in> set (columns ex_table) \<and> (\<exists>t. load_data stable_argsort ex_num ex_table 0 = Inr t)"
proof -
  have a: "(0::int) \<le> 1" by simp
  have b: "''Time'' \<in> set (columns ex_table)" by (simp add: ex_table_def)
  from load_data_step_le_1 [OF a, of stable_argsort ex_num ex_table] a b show ?thesis by blast
qed

subsection \<open>Cleaning\<close>

lemma to_numeric_idem: "to_numeric num (to_numeric num v) = to_numeric num v"
  by (cases v) (auto split: option.splits)

lemma to_numeric_not_text: "\<not> is_text (to_numeric num v)"
  by (cases v) (auto simp: is_text_def split: option.splits)

lemma map_of_replace:
  "map_of (map (\<lambda>(n, v). (n, if n = c then w else v)) r) k
     = (if k = c then map_option (\<lambda>_. w) (map_of r c) else map_of r k)"
  by (induction r) auto

lemma cell_of_replace_other:
  "k \<noteq> c \<Longrightarrow> cell_of (map (\<lambda>(n, v). (n, if n = c then w else v)) r) k = cell_of r k"
  by (simp add: cell_of_def map_of_replace)

lemma cell_of_replace_same:
  "cell_of (map (\<lambda>(n, v). (n, if n = c then w else v)) r) c
     = (if map_of r c = None then NaN else w)"
  by (auto simp add: cell_of_def map_of_replace split: option.splits)

lemma cell_of_append_other:
  "k \<noteq> c \<Longrightarrow> cell_of (r @ [(c, w)]) k = cell_of r k"
  by (simp add: cell_of_def map_add_def split: option.splits)

lemma cell_of_shape: "cell_of (map (\<lambda>k. (k, g k)) ks) c = (if c \<in> set ks then g c else NaN)"
proof -
  have "map_of (map (\<lambda>k. (k, g k)) ks) c = (if c \<in> set ks then Some (g c) else None)"
    by (induction ks) auto
  then show ?thesis by (simp add: cell_of_def)
qed

text \<open>The row after the conversion of its time.\<close>

lemma cell_of_time_converted:
  "cell_of (map (\<lambda>(n, v). (n, if n = ''Time'' then to_numeric num (cell_of r ''Time'') else v)) r) k
     = (if k = ''Time'' then to_numeric num (cell_of r ''Time'') else cell_of r k)"
proof (cases "k = ''Time''")
  case True
  show ?thesis
  proof (cases "map_of r ''Time''")
    case None
    then have "cell_of r ''Time'' = NaN" by (simp add: cell_of_def)
    with None True show ?thesis by (simp add: cell_of_replace_same)
  next
    case (Some v)
    with True show ?thesis by (simp add: cell_of_replace_same)
  qed
next
  case False
  then show ?thesis by (simp add: cell_of_replace_other)
qed

lemma assign_time_rows:
  "''Time'' \<in> set (columns df) \<Longrightarrow>
   rows (assign ''Time'' (\<lambda>r. to_numeric num (cell_of r ''Time'')) df) = map (time_converted num) (rows df)"
  by (simp add: assign_def time_converted_def case_prod_beta)

lemma assign_time_columns:
  "''Time'' \<in> set (columns df) \<Longrightarrow>
   columns (assign ''Time'' (\<lambda>r. to_numeric num (cell_of r ''Time'')) df) = columns df"
  by (simp add: assign_def)

lemma cell_of_time_converted':
  "cell_of (snd (time_converted num lr)) k
     = (if k = ''Time'' then to_numeric num (cell_of (snd lr) ''Time'') else cell_of (snd lr) k)"
  unfolding time_converted_def snd_conv by (rule cell_of_time_converted)

lemma dropna_time_rows:
  "filter (\<lambda>(l, r). cell_of r ''Time'' \<noteq> NaN) (map (time_converted num) xs)
     = map (time_converted num) (filter (time_ok num) xs)"
  by (induction xs) (auto simp: time_ok_def cell_of_time_converted' case_prod_beta)

lemma sort_values_all_present:
  assumes "\<forall>(l, r) \<in> set (rows d). cell_of r c \<noteq> NaN"
  shows "rows (sort_values argsort c d) = map ((!) (rows d)) (argsort (map (sort_key_of c) (rows d)))"
proof -
  have 1: "filter (\<lambda>(l, r). cell_of r c \<noteq> NaN) (rows d) = rows d"
    using assms by (auto simp: filter_id_conv)
  have 2: "filter (\<lambda>(l, r). cell_of r c = NaN) (rows d) = []"
    using assms by (auto simp: filter_empty_conv)
  show ?thesis by (simp add: sort_values_def Let_def 1 2)
qed

lemma sort_values_columns: "columns (sort_values argsort c d) = columns d"
  by (simp add: sort_values_def Let_def)

lemma argsort_range: "is_argsort argsort \<Longrightarrow> set (argsort ks) = {0..<length ks}"
proof -
  assume "is_argsort argsort"
  then have "mset (argsort ks) = mset [0..<length ks]" by (simp add: is_argsort_def)
  then have "set (argsort ks) = set [0..<length ks]" by (rule mset_eq_setD)
  then show ?thesis by simp
qed

lemma nth_map_positions:
  "set ps \<subseteq> {0..<length xs} \<Longrightarrow> map ((!) (map f xs)) ps = map f (map ((!) xs) ps)"
  by (induction ps) auto

lemma sort_key_of_time_converted: "sort_key_of ''Time'' (time_converted num lr) = time_key num lr"
  by (simp add: sort_key_of_def time_key_def num_of_def cell_of_time_converted')

lemma line_22_rows:
  assumes "is_argsort argsort" and "''Time'' \<in> set (columns df)"
  shows "rows (sort_values argsort ''Time''
           (dropna ''Time'' (assign ''Time'' (\<lambda>r. to_numeric num (cell_of r ''Time'')) df)))
         = map (time_converted num) (sorted_rows argsort num df)"
proof -
  let ?Q = "filter (time_ok num) (rows df)"
  let ?d = "dropna ''Time'' (assign ''Time'' (\<lambda>r. to_numeric num (cell_of r ''Time'')) df)"
  have rows_d: "rows ?d = map (time_converted num) ?Q"
    by (simp add: dropna_def assign_time_rows[OF assms(2)] dropna_time_rows)
  have "\<forall>(l, r) \<in> set (rows ?d). cell_of r ''Time'' \<noteq> NaN"
    by (auto simp: dropna_def)
  then have "rows (sort_values argsort ''Time'' ?d)
      = map ((!) (rows ?d)) (argsort (map (sort_key_of ''Time'') (rows ?d)))"
    by (rule sort_values_all_present)
  also have "map (sort_key_of ''Time'') (rows ?d) = map (time_key num) ?Q"
    by (simp add: rows_d sort_key_of_time_converted)
  also have "map ((!) (rows ?d)) (argsort (map (time_key num) ?Q))
      = map (time_converted num) (map ((!) ?Q) (argsort (map (time_key num) ?Q)))"
    unfolding rows_d
    by (rule nth_map_positions) (simp add: argsort_range[OF assms(1)])
  finally show ?thesis by (simp add: sorted_rows_def Let_def)
qed

lemma line_22_columns:
  assumes "''Time'' \<in> set (columns df)"
  shows "columns (sort_values argsort ''Time''
           (dropna ''Time'' (assign ''Time'' (\<lambda>r. to_numeric num (cell_of r ''Time'')) df)))
         = columns df"
  by (simp add: sort_values_columns dropna_def assign_time_columns[OF assms])

lemma assign_existing:
  "c \<in> set (columns d) \<Longrightarrow> c \<noteq> ''Time'' \<Longrightarrow>
   assign c (\<lambda>r. to_numeric num (cell_of r c)) d
     = d\<lparr>rows := map (\<lambda>(l, r). (l, conv_step num c r)) (rows d)\<rparr>"
  by (simp add: assign_def conv_step_def)

lemma conv_step_time: "conv_step num ''Time'' r = r"
  by (simp add: conv_step_def)

lemma convert_fold:
  "set cs \<subseteq> set (columns d) \<Longrightarrow>
   foldl (\<lambda>d c. if c \<noteq> ''Time'' then assign c (\<lambda>r. to_numeric num (cell_of r c)) d else d) d cs
     = d\<lparr>rows := map (\<lambda>(l, r). (l, foldl (\<lambda>r c. conv_step num c r) r cs)) (rows d)\<rparr>"
proof (induction cs arbitrary: d)
  case Nil
  then show ?case by simp
next
  case (Cons c cs)
  let ?step = "\<lambda>d c. if c \<noteq> ''Time'' then assign c (\<lambda>r. to_numeric num (cell_of r c)) d else d"
  let ?d' = "d\<lparr>rows := map (\<lambda>(l, r). (l, conv_step num c r)) (rows d)\<rparr>"
  from Cons.prems have c: "c \<in> set (columns d)" and cs: "set cs \<subseteq> set (columns ?d')" by simp_all
  have "?step d c = ?d'"
  proof (cases "c = ''Time''")
    case True
    then show ?thesis by (simp add: conv_step_time)
  next
    case False
    then show ?thesis using assign_existing[OF c False] by simp
  qed
  then have "foldl ?step d (c # cs) = foldl ?step ?d' cs" by simp
  also have "\<dots> = ?d'\<lparr>rows := map (\<lambda>(l, r). (l, foldl (\<lambda>r c. conv_step num c r) r cs)) (rows ?d')\<rparr>"
    by (rule Cons.IH[OF cs])
  finally show ?case by (simp add: case_prod_beta comp_def)
qed

lemma conv_step_shape:
  "conv_step num c (map (\<lambda>k. (k, g k)) ks)
     = map (\<lambda>k. (k, if k = c \<and> k \<noteq> ''Time'' then to_numeric num (g k) else g k)) ks"
  by (auto simp: conv_step_def cell_of_shape)

lemma conv_fold_shape:
  "foldl (\<lambda>r c. conv_step num c r) (map (\<lambda>k. (k, g k)) ks) cs
     = map (\<lambda>k. (k, if k \<in> set cs \<and> k \<noteq> ''Time'' then to_numeric num (g k) else g k)) ks"
proof (induction cs arbitrary: g)
  case Nil
  then show ?case by simp
next
  case (Cons c cs)
  let ?g = "\<lambda>k. if k = c \<and> k \<noteq> ''Time'' then to_numeric num (g k) else g k"
  have "foldl (\<lambda>r c. conv_step num c r) (map (\<lambda>k. (k, g k)) ks) (c # cs)
      = foldl (\<lambda>r c. conv_step num c r) (map (\<lambda>k. (k, ?g k)) ks) cs"
    by (simp add: conv_step_shape)
  also have "\<dots> = map (\<lambda>k. (k, if k \<in> set cs \<and> k \<noteq> ''Time'' then to_numeric num (?g k) else ?g k)) ks"
    by (rule Cons.IH)
  also have "\<dots> = map (\<lambda>k. (k, if k \<in> set (c # cs) \<and> k \<noteq> ''Time'' then to_numeric num (g k) else g k)) ks"
    by (auto simp: to_numeric_idem)
  finally show ?case .
qed

lemma convert_others_select:
  "convert_others num (select_columns cs d)
     = \<lparr>columns = cs,
        rows = map (\<lambda>(l, r). (l, map (\<lambda>k. (k, if k \<noteq> ''Time'' then to_numeric num (cell_of r k)
                                             else cell_of r k)) cs)) (rows d)\<rparr>"
proof -
  have "convert_others num (select_columns cs d)
      = (select_columns cs d)\<lparr>rows := map (\<lambda>(l, r). (l, foldl (\<lambda>r c. conv_step num c r) r cs))
                                        (rows (select_columns cs d))\<rparr>"
    unfolding convert_others_def by (simp add: convert_fold select_columns_def)
  also have "\<dots> = \<lparr>columns = cs,
        rows = map (\<lambda>(l, r). (l, foldl (\<lambda>r c. conv_step num c r) (map (\<lambda>k. (k, cell_of r k)) cs) cs)) (rows d)\<rparr>"
    by (simp add: select_columns_def case_prod_beta comp_def)
  also have "\<dots> = \<lparr>columns = cs,
        rows = map (\<lambda>(l, r). (l, map (\<lambda>k. (k, if k \<noteq> ''Time'' then to_numeric num (cell_of r k)
                                             else cell_of r k)) cs)) (rows d)\<rparr>"
    by (simp add: conv_fold_shape cong: map_cong)
  finally show ?thesis .
qed

lemma clean_row_time_converted:
  "map (\<lambda>k. (k, if k \<noteq> ''Time'' then to_numeric num (cell_of (snd (time_converted num lr)) k)
                 else cell_of (snd (time_converted num lr)) k)) cs
     = clean_row num cs (snd lr)"
  by (simp add: clean_row_def cell_of_time_converted' to_numeric_idem)

lemma fst_time_converted: "fst (time_converted num lr) = fst lr"
  by (simp add: time_converted_def)

text \<open>The cleaned table in closed form.\<close>

lemma cleaned_closed_form:
  assumes "is_argsort argsort" and "''Time'' \<in> set (columns df)"
  shows "cleaned argsort num df
       = \<lparr>columns = kept_columns df,
          rows = map (\<lambda>lr. (fst lr, clean_row num (kept_columns df) (snd lr))) (sorted_rows argsort num df)\<rparr>"
  unfolding cleaned_def Let_def convert_others_select
  by (simp add: line_22_rows[OF assms] line_22_columns[OF assms(2)] kept_columns_def
        case_prod_beta comp_def clean_row_time_converted fst_time_converted)





lemma time_kept: "''Time'' \<in> set (columns df) \<Longrightarrow> ''Time'' \<in> set (kept_columns df)"
  by (simp add: kept_columns_def ignore_cols_def)



lemma set_stride: "set (stride k xs) \<subseteq> set xs"
proof (induction k xs rule: stride.induct)
  case (1 k)
  then show ?case by simp
next
  case (2 k x xs)
  have "set (drop (k - 1) xs) \<subseteq> set xs" by (rule set_drop_subset)
  with 2 show ?case by auto
qed





lemma clean_row_names: "map fst (clean_row num cs r) = cs"
  by (simp add: clean_row_def comp_def)

lemma clean_row_numeric: "(n, v) \<in> set (clean_row num cs r) \<Longrightarrow> \<not> is_text v"
  by (auto simp: clean_row_def to_numeric_not_text)

lemma load_data_rows_subset:
  "set (map snd (rows (reset_index (decimate step d)))) \<subseteq> set (map snd (rows d))"
proof -
  have "set (rows (decimate step d)) \<subseteq> set (rows d)"
    using set_stride[of "nat step" "rows d"] by (simp add: decimate_def)
  then show ?thesis by (auto simp only: reset_index_rows set_map)
qed



















subsection \<open>Two calls on one file\<close>

lemma files_print: "files (print m w) = files w"
  by (simp add: print_def)

lemma files_prints: "files (foldl (\<lambda>w m. print m w) w ms) = files w"
  by (induction ms arbitrary: w) (simp_all add: files_print)

lemma load_data_io_files:
  "files (fst (load_data_io read_csv fmt argsort num filepath step w)) = files w"
  by (simp add: load_data_io_def Let_def files_print files_prints split: option.splits sum.splits)

lemma load_data_io_result:
  "snd (load_data_io read_csv fmt argsort num filepath step w)
     = (case files w filepath of
          None \<Rightarrow> Inl (FileNotFoundError (''[Errno 2] No such file or directory: '' @ quoted filepath))
        | Some a \<Rightarrow> (case read_csv a of Inl e \<Rightarrow> Inl e | Inr df \<Rightarrow> load_data argsort num df step))"
  by (simp add: load_data_io_def Let_def files_print split: option.splits sum.splits)

text \<open>
  C7. A call of \<open>load_data\<close> on a file leaves every file as it was, the source among them:
  it only prints. So a second call on the same source, with the same step, returns what
  the first returned: the same error, or the same table with the same columns, rows,
  values and order. The library's reader, parser and sort are taken to be functions of
  their arguments.
\<close>

theorem load_data_deterministic:
  "files (fst (load_data_io read_csv fmt argsort num filepath 1 w)) = files w
   \<and> snd (load_data_io read_csv fmt argsort num filepath 1
           (fst (load_data_io read_csv fmt argsort num filepath 1 w)))
     = snd (load_data_io read_csv fmt argsort num filepath 1 w)"
  by (simp add: load_data_io_result load_data_io_files)

section \<open>Properties of create_plot\<close>

text \<open>What \<open>load_data\<close> returns is a numeric table with a \<open>Time\<close> column.\<close>

lemma loaded_numeric_table:
  assumes "is_argsort argsort" and "''Time'' \<in> set (columns df)"
    and "load_data argsort num df step = Inr out"
  shows "numeric_table out \<and> ''Time'' \<in> set (columns out)"
proof -
  let ?pre = "cleaned argsort num df"
  have out: "out = reset_index (decimate step ?pre)"
    using assms(2,3) by (simp add: load_data_def)
  have cols: "columns out = kept_columns df"
    by (simp add: out reset_index_columns decimate_columns cleaned_closed_form[OF assms(1,2)])
  have pre_rows: "map snd (rows ?pre)
      = map (\<lambda>lr. clean_row num (kept_columns df) (snd lr)) (sorted_rows argsort num df)"
    by (simp add: cleaned_closed_form[OF assms(1,2)] comp_def)
  have "map fst r = columns out \<and> (\<forall>(n, v) \<in> set r. \<not> is_text v)"
    if "r \<in> set (map snd (rows out))" for r
  proof -
    from that have "r \<in> set (map snd (rows ?pre))"
      unfolding out using load_data_rows_subset by blast
    then obtain lr where r: "r = clean_row num (kept_columns df) (snd lr)"
      unfolding pre_rows by auto
    show ?thesis unfolding r cols using clean_row_numeric by (auto simp: clean_row_names)
  qed
  then have "numeric_table out" unfolding numeric_table_def by blast
  then show ?thesis using time_kept[OF assms(2)] by (simp add: cols)
qed

lemma assign_columns:
  "columns (assign c f d) = columns d @ (if c \<in> set (columns d) then [] else [c])"
  by (simp add: assign_def)

lemma assign_labels: "map fst (rows (assign c f d)) = map fst (rows d)"
  by (simp add: assign_def case_prod_beta comp_def)

lemma assign_other: "k \<noteq> c \<Longrightarrow> get_column (assign c f d) k = get_column d k"
  by (simp add: assign_def get_column_def case_prod_beta comp_def cell_of_replace_other
        cell_of_append_other)

lemma to_mv_columns:
  "\<exists>extra. columns (fst (to_mv chs d)) = columns d @ extra \<and> set extra \<subseteq> (\<lambda>ch. ch @ ''_mV'') ` set chs"
proof (induction chs arbitrary: d)
  case Nil
  then show ?case by simp
next
  case (Cons ch chs)
  show ?case
  proof (cases "has_text d ch")
    case True
    then show ?thesis by simp
  next
    case False
    let ?d = "assign (ch @ ''_mV'') (\<lambda>r. scale_mv (cell_of r ch)) d"
    from Cons.IH[of ?d] obtain extra where
      e: "columns (fst (to_mv chs ?d)) = columns ?d @ extra" "set extra \<subseteq> (\<lambda>ch. ch @ ''_mV'') ` set chs"
      by blast
    let ?new = "(if ch @ ''_mV'' \<in> set (columns d) then [] else [ch @ ''_mV'']) @ extra"
    have "columns (fst (to_mv (ch # chs) d)) = columns d @ ?new"
      using False e(1) by (simp add: assign_columns)
    moreover have "set ?new \<subseteq> (\<lambda>ch. ch @ ''_mV'') ` set (ch # chs)" using e(2) by auto
    ultimately show ?thesis by blast
  qed
qed

lemma to_mv_labels: "map fst (rows (fst (to_mv chs d))) = map fst (rows d)"
  by (induction chs arbitrary: d) (simp_all add: assign_labels)

lemma to_mv_other:
  "k \<notin> (\<lambda>ch. ch @ ''_mV'') ` set chs \<Longrightarrow> get_column (fst (to_mv chs d)) k = get_column d k"
  by (induction chs arbitrary: d) (auto simp: assign_other)

lemma available_subset: "set (available known df channels) \<subseteq> set known"
  by (auto simp: available_def Let_def split: option.splits)

lemma ecg_mv_columns: "(\<lambda>ch. ch @ ''_mV'') ` set (available ecg_channels df channels) \<subseteq> mv_columns"
  using available_subset[of ecg_channels df channels]
  by (auto simp: ecg_channels_def mv_columns_def)

text \<open>The table as \<open>create_plot\<close> leaves it.\<close>

lemma create_plot_table:
  "fst (create_plot df title ecg_units channels rng)
     = (if ecg_units = ''mv''
        then (let df1 = fst (to_mv (available ecg_channels df channels) df)
              in if snd (to_mv (available ecg_channels df channels) df) = None
                    \<and> available cm_channels df channels \<noteq> [] \<and> \<not> has_text df1 ''CM''
                 then assign ''CM_mV'' (\<lambda>r. scale_mv (cell_of r ''CM'')) df1 else df1)
        else df)"
  by (auto simp: create_plot_def Let_def split: prod.splits option.splits)

text \<open>What \<open>create_plot\<close> leaves untouched, on every table and in every mode.\<close>

lemma create_plot_frame:
  "(ecg_units \<noteq> ''mv'' \<longrightarrow> fst (create_plot df title ecg_units channels rng) = df)
   \<and> (\<exists>extra. columns (fst (create_plot df title ecg_units channels rng)) = columns df @ extra
              \<and> set extra \<subseteq> mv_columns)
   \<and> map fst (rows (fst (create_plot df title ecg_units channels rng))) = map fst (rows df)
   \<and> (\<forall>c. c \<notin> mv_columns \<longrightarrow>
          get_column (fst (create_plot df title ecg_units channels rng)) c = get_column df c)"
proof (cases "ecg_units = ''mv''")
  case False
  then show ?thesis by (simp add: create_plot_table)
next
  case True
  let ?chs = "available ecg_channels df channels"
  let ?df1 = "fst (to_mv ?chs df)"
  let ?df2 = "assign ''CM_mV'' (\<lambda>r. scale_mv (cell_of r ''CM'')) ?df1"
  from to_mv_columns[of ?chs df] ecg_mv_columns[of df channels] obtain extra where
    c1: "columns ?df1 = columns df @ extra" "set extra \<subseteq> mv_columns" by blast
  have l1: "map fst (rows ?df1) = map fst (rows df)" by (rule to_mv_labels)
  have o1: "get_column ?df1 c = get_column df c" if "c \<notin> mv_columns" for c
    using that ecg_mv_columns[of df channels] by (intro to_mv_other) blast
  have c2: "\<exists>extra. columns ?df2 = columns df @ extra \<and> set extra \<subseteq> mv_columns"
  proof -
    let ?new = "extra @ (if ''CM_mV'' \<in> set (columns ?df1) then [] else [''CM_mV''])"
    have "columns ?df2 = columns df @ ?new" by (simp add: assign_columns c1(1))
    moreover have "set ?new \<subseteq> mv_columns" using c1(2) by (simp add: mv_columns_def)
    ultimately show ?thesis by blast
  qed
  have l2: "map fst (rows ?df2) = map fst (rows df)" by (simp add: assign_labels l1)
  have o2: "get_column ?df2 c = get_column df c" if "c \<notin> mv_columns" for c
  proof -
    from that have "c \<noteq> ''CM_mV''" by (auto simp: mv_columns_def)
    then show ?thesis by (simp add: assign_other o1[OF that])
  qed
  have "fst (create_plot df title ecg_units channels rng) = ?df1
      \<or> fst (create_plot df title ecg_units channels rng) = ?df2"
    using True by (simp add: create_plot_table Let_def)
  then show ?thesis
  proof
    assume "fst (create_plot df title ecg_units channels rng) = ?df1"
    then show ?thesis using True c1 l1 o1 by auto
  next
    assume "fst (create_plot df title ecg_units channels rng) = ?df2"
    then show ?thesis using True c2 l2 o2 by auto
  qed
qed

text \<open>
  C6 as stated fails: in mode \<open>mv\<close> the assignments \<open>df[ch + '_mV'] = ...\<close> and
  \<open>df['CM_mV'] = ...\<close> write into the table that the caller loaded. The table below is
  what \<open>load_data\<close> returns for it, and after \<open>create_plot\<close> it has two more columns.
\<close>

theorem create_plot_mutates_counterexample:
  "load_data stable_argsort ex_num ex_ecg 1 = Inr ex_ecg
   \<and> columns ex_ecg = [''Time'', ''Fp1'', ''X1:LEOG'', ''CM'']
   \<and> columns (fst (create_plot ex_ecg ''t'' ''mv'' None None))
       = [''Time'', ''Fp1'', ''X1:LEOG'', ''CM'', ''X1:LEOG_mV'', ''CM_mV'']"
proof -
  have 1: "load_data stable_argsort ex_num ex_ecg 1 = Inr ex_ecg" by code_simp
  have 2: "columns ex_ecg = [''Time'', ''Fp1'', ''X1:LEOG'', ''CM'']" by (simp add: ex_ecg_def)
  have 3: "columns (fst (create_plot ex_ecg ''t'' ''mv'' None None))
       = [''Time'', ''Fp1'', ''X1:LEOG'', ''CM'', ''X1:LEOG_mV'', ''CM_mV'']" by code_simp
  from 1 2 3 show ?thesis by blast
qed

lemma numeric_cell_of:
  assumes "numeric_table d" and "(l, r) \<in> set (rows d)"
  shows "\<not> is_text (cell_of r c)"
proof (cases "map_of r c")
  case None
  then show ?thesis by (simp add: cell_of_def is_text_def)
next
  case (Some v)
  then have "(c, v) \<in> set r" by (rule map_of_SomeD)
  moreover from assms have "\<forall>(n, v) \<in> set r. \<not> is_text v" by (force simp: numeric_table_def)
  ultimately show ?thesis using Some by (auto simp: cell_of_def)
qed

lemma numeric_no_text: "numeric_table d \<Longrightarrow> \<not> has_text d c"
  by (auto simp: has_text_def list_ex_iff get_column_def dest: numeric_cell_of)

lemma scale_mv_not_text: "\<not> is_text v \<Longrightarrow> \<not> is_text (scale_mv v)"
  by (cases v) (simp_all add: scale_mv_def is_text_def)

lemma numeric_assign:
  assumes "numeric_table d"
  shows "numeric_table (assign c (\<lambda>r. scale_mv (cell_of r k)) d)"
proof -
  have row: "map fst r = columns d \<and> (\<forall>(n, v) \<in> set r. \<not> is_text v) \<and> \<not> is_text (scale_mv (cell_of r k))"
    if "(l, r) \<in> set (rows d)" for l r
    using assms that numeric_cell_of[OF assms that, of k]
    by (force simp: numeric_table_def scale_mv_not_text)
  show ?thesis
  proof (cases "c \<in> set (columns d)")
    case True
    then show ?thesis using row
      by (auto simp: numeric_table_def assign_def comp_def case_prod_beta) fastforce+
  next
    case False
    then show ?thesis using row
      by (auto simp: numeric_table_def assign_def comp_def case_prod_beta) fastforce+
  qed
qed

lemma aligned_assign_same:
  assumes "numeric_table d"
  shows "get_column (assign c f d) c = map (\<lambda>lr. f (snd lr)) (rows d)"
proof -
  have keys: "map fst r = columns d" if "(l, r) \<in> set (rows d)" for l r
    using assms that by (force simp: numeric_table_def)
  show ?thesis
  proof (cases "c \<in> set (columns d)")
    case True
    have "cell_of (map (\<lambda>(n, v). (n, if n = c then f r else v)) r) c = f r"
      if "(l, r) \<in> set (rows d)" for l r
    proof -
      from keys[OF that] True have "c \<in> fst ` set r" by (metis set_map)
      then have "map_of r c \<noteq> None" by (simp add: map_of_eq_None_iff)
      then show ?thesis by (auto simp: cell_of_replace_same)
    qed
    then show ?thesis using True
      by (auto simp: assign_def get_column_def)
  next
    case False
    have "cell_of (r @ [(c, f r)]) c = f r" if "(l, r) \<in> set (rows d)" for l r
    proof -
      from keys[OF that] False have "c \<notin> fst ` set r" by (metis set_map)
      then have "map_of r c = None" by (simp add: map_of_eq_None_iff)
      then show ?thesis by (simp add: cell_of_def map_add_def)
    qed
    then show ?thesis using False
      by (auto simp: assign_def get_column_def)
  qed
qed

lemma assign_scale_column:
  assumes "numeric_table d"
  shows "get_column (assign c (\<lambda>r. scale_mv (cell_of r k)) d) c = map scale_mv (get_column d k)"
proof -
  have "get_column (assign c (\<lambda>r. scale_mv (cell_of r k)) d) c
      = map (\<lambda>lr. scale_mv (cell_of (snd lr) k)) (rows d)"
    by (rule aligned_assign_same[OF assms])
  also have "\<dots> = map scale_mv (get_column d k)"
    by (simp add: get_column_def case_prod_beta comp_def)
  finally show ?thesis .
qed

lemma to_mv_numeric:
  assumes "numeric_table d" and "\<forall>ch \<in> set chs. \<forall>ch' \<in> set chs. ch @ ''_mV'' \<noteq> ch'"
  shows "snd (to_mv chs d) = None \<and> numeric_table (fst (to_mv chs d))
       \<and> (\<forall>ch \<in> set chs. get_column (fst (to_mv chs d)) (ch @ ''_mV'') = map scale_mv (get_column d ch))"
  using assms
proof (induction chs arbitrary: d)
  case Nil
  then show ?case by simp
next
  case (Cons ch chs)
  let ?d = "assign (ch @ ''_mV'') (\<lambda>r. scale_mv (cell_of r ch)) d"
  have nt: "\<not> has_text d ch" by (rule numeric_no_text[OF Cons.prems(1)])
  have nd: "numeric_table ?d" by (rule numeric_assign[OF Cons.prems(1)])
  from Cons.prems(2) have sep: "\<forall>a \<in> set chs. \<forall>b \<in> set chs. a @ ''_mV'' \<noteq> b" by simp
  note ih = Cons.IH[OF nd sep]
  have eq: "to_mv (ch # chs) d = to_mv chs ?d" using nt by simp
  have other: "get_column ?d c = get_column d c" if "c \<in> set (ch # chs)" for c
  proof -
    from that Cons.prems(2) have "c \<noteq> ch @ ''_mV''" by auto
    then show ?thesis by (rule assign_other)
  qed
  have "get_column (fst (to_mv chs ?d)) (c @ ''_mV'') = map scale_mv (get_column d c)"
    if c: "c \<in> set (ch # chs)" for c
  proof (cases "c \<in> set chs")
    case True
    with ih have "get_column (fst (to_mv chs ?d)) (c @ ''_mV'') = map scale_mv (get_column ?d c)" by blast
    then show ?thesis by (simp add: other[OF c])
  next
    case False
    with c have [simp]: "c = ch" by simp
    have "ch @ ''_mV'' \<notin> (\<lambda>ch. ch @ ''_mV'') ` set chs" using False by auto
    then have "get_column (fst (to_mv chs ?d)) (ch @ ''_mV'') = get_column ?d (ch @ ''_mV'')"
      by (rule to_mv_other)
    then show ?thesis by (simp add: assign_scale_column[OF Cons.prems(1)])
  qed
  with ih show ?case unfolding eq by blast
qed

lemma length_get_column: "length (get_column d c) = length (rows d)"
  by (simp add: get_column_def)

lemma numeric_column: "numeric_table d \<Longrightarrow> v \<in> set (get_column d c) \<Longrightarrow> \<not> is_text v"
  by (auto simp: get_column_def dest: numeric_cell_of)

lemma ecg_axis_range_ok:
  assumes "numeric_table d" and "rows d \<noteq> []" and "cols \<noteq> []"
  shows "\<exists>rng. ecg_axis_range d cols = Inr rng"
proof -
  let ?vals = "concat (map (get_column d) cols)"
  from assms(3) obtain c where c: "c \<in> set cols" by (cases cols) auto
  have "get_column d c \<noteq> []" using assms(2) length_get_column[of d c] by auto
  with c have ne: "?vals \<noteq> []" by auto
  have nt: "\<not> list_ex is_text ?vals"
    using numeric_column[OF assms(1)] by (auto simp: list_ex_iff)
  show ?thesis using ne nt by (simp add: ecg_axis_range_def Let_def)
qed

lemma render_ok:
  assumes "numeric_table d" and "''Time'' \<in> set (columns d)" and "rows d \<noteq> []"
  shows "\<exists>fig. render d title eeg ecg_pairs cm_pairs el cl rng = Inr fig
             \<and> ecg_traces fig = make_traces d ecg_pairs"
proof (cases "ecg_pairs = []")
  case True
  then show ?thesis using assms(2) by (simp add: render_def)
next
  case False
  then have "map snd ecg_pairs \<noteq> []" by simp
  from ecg_axis_range_ok[OF assms(1) assms(3) this] obtain r
    where "ecg_axis_range d (map snd ecg_pairs) = Inr r" by blast
  then show ?thesis using False assms(2) by (simp add: render_def)
qed

lemma make_traces_zip:
  "make_traces d (zip chs (map f chs))
     = map (\<lambda>ch. \<lparr>trace_name = ch, trace_x = get_column d ''Time'', trace_y = get_column d (f ch)\<rparr>) chs"
  by (induction chs) (simp_all add: make_traces_def)

lemma ecg_separate:
  "\<forall>ch \<in> set (available ecg_channels df channels).
     \<forall>ch' \<in> set (available ecg_channels df channels). ch @ ''_mV'' \<noteq> ch'"
  using available_subset[of ecg_channels df channels] by (auto simp: ecg_channels_def)

lemma ecg_not_special:
  "ch \<in> set (available ecg_channels df channels) \<Longrightarrow> ch @ ''_mV'' \<noteq> ''CM_mV'' \<and> ch @ ''_mV'' \<noteq> ''Time''"
  using available_subset[of ecg_channels df channels] by (auto simp: ecg_channels_def)

lemma create_plot_mv:
  assumes "numeric_table df" and "''Time'' \<in> set (columns df)" and "rows df \<noteq> []"
  shows "\<exists>df' fig. create_plot df title ''mv'' channels rng = (df', Inr fig)
       \<and> ecg_traces fig
         = map (\<lambda>ch. \<lparr>trace_name = ch, trace_x = get_column df ''Time'',
                      trace_y = map scale_mv (get_column df ch)\<rparr>)
             (available ecg_channels df channels)"
proof -
  let ?chs = "available ecg_channels df channels"
  let ?pairs = "zip ?chs (map (\<lambda>ch. ch @ ''_mV'') ?chs)"
  let ?want = "map (\<lambda>ch. \<lparr>trace_name = ch, trace_x = get_column df ''Time'',
                      trace_y = map scale_mv (get_column df ch)\<rparr>) ?chs"
  obtain df1 e where run0: "to_mv ?chs df = (df1, e)" by (cases "to_mv ?chs df") auto
  then have fs: "fst (to_mv ?chs df) = df1" "snd (to_mv ?chs df) = e" by simp_all
  from to_mv_numeric[OF assms(1) ecg_separate[of df channels]]
  have e: "e = None" and n1: "numeric_table df1"
    and y1: "\<forall>ch \<in> set ?chs. get_column df1 (ch @ ''_mV'') = map scale_mv (get_column df ch)"
    unfolding fs by blast+
  have run: "to_mv ?chs df = (df1, None)" using run0 e by simp
  have t1: "''Time'' \<in> set (columns df1)" using to_mv_columns[of ?chs df] assms(2) unfolding fs by auto
  have "length (rows df1) = length (rows df)"
    using to_mv_labels[of ?chs df] unfolding fs by (metis length_map)
  then have r1: "rows df1 \<noteq> []" using assms(3) by auto
  have "''Time'' \<notin> (\<lambda>ch. ch @ ''_mV'') ` set ?chs" using ecg_not_special by fastforce
  then have "get_column (fst (to_mv ?chs df)) ''Time'' = get_column df ''Time''" by (rule to_mv_other)
  then have x1: "get_column df1 ''Time'' = get_column df ''Time''" unfolding fs .
  show ?thesis
  proof (cases "available cm_channels df channels = []")
    case True
    from render_ok[OF n1 t1 r1] obtain fig where
      fig: "render df1 title (available eeg_channels df channels) ?pairs
              (zip (available cm_channels df channels) (available cm_channels df channels))
              ''mV'' ''uV'' rng = Inr fig"
        "ecg_traces fig = make_traces df1 ?pairs" by blast
    have "create_plot df title ''mv'' channels rng = (df1, Inr fig)"
      using True fig(1) by (simp add: create_plot_def Let_def run)
    moreover have "ecg_traces fig = ?want"
      unfolding fig(2) make_traces_zip using y1 by (simp add: x1)
    ultimately show ?thesis by blast
  next
    case False
    let ?df2 = "assign ''CM_mV'' (\<lambda>r. scale_mv (cell_of r ''CM'')) df1"
    have nt: "\<not> has_text df1 ''CM''" by (rule numeric_no_text[OF n1])
    have n2: "numeric_table ?df2" by (rule numeric_assign[OF n1])
    have t2: "''Time'' \<in> set (columns ?df2)" using t1 by (simp add: assign_columns)
    have "length (rows ?df2) = length (rows df1)"
      using assign_labels[of "''CM_mV''" _ df1] by (metis length_map)
    then have r2: "rows ?df2 \<noteq> []" using r1 by auto
    have x2: "get_column ?df2 ''Time'' = get_column df ''Time''" by (simp add: assign_other x1)
    have y2: "\<forall>ch \<in> set ?chs. get_column ?df2 (ch @ ''_mV'') = map scale_mv (get_column df ch)"
      using y1 ecg_not_special by (simp add: assign_other)
    from render_ok[OF n2 t2 r2] obtain fig where
      fig: "render ?df2 title (available eeg_channels df channels) ?pairs
              (zip (available cm_channels df channels) [''CM_mV'']) ''mV'' ''mV'' rng = Inr fig"
        "ecg_traces fig = make_traces ?df2 ?pairs" by blast
    have "create_plot df title ''mv'' channels rng = (?df2, Inr fig)"
      using False nt fig(1) by (simp add: create_plot_def Let_def run)
    moreover have "ecg_traces fig = ?want"
      unfolding fig(2) make_traces_zip using y2 by (simp add: x2)
    ultimately show ?thesis by blast
  qed
qed

lemma create_plot_uv:
  assumes "numeric_table df" and "''Time'' \<in> set (columns df)" and "rows df \<noteq> []"
  shows "\<exists>fig. create_plot df title ''uv'' channels rng = (df, Inr fig)
       \<and> ecg_traces fig
         = map (\<lambda>ch. \<lparr>trace_name = ch, trace_x = get_column df ''Time'',
                      trace_y = get_column df ch\<rparr>)
             (available ecg_channels df channels)"
proof -
  let ?chs = "available ecg_channels df channels"
  from render_ok[OF assms] obtain fig where
    fig: "render df title (available eeg_channels df channels) (zip ?chs (map (\<lambda>ch. ch) ?chs))
            (zip (available cm_channels df channels) (available cm_channels df channels))
            ''uV'' ''uV'' rng = Inr fig"
      "ecg_traces fig = make_traces df (zip ?chs (map (\<lambda>ch. ch) ?chs))" by blast
  have "create_plot df title ''uv'' channels rng = (df, Inr fig)"
    using fig(1) by (simp add: create_plot_def Let_def)
  moreover have "ecg_traces fig = map (\<lambda>ch. \<lparr>trace_name = ch, trace_x = get_column df ''Time'',
                      trace_y = get_column df ch\<rparr>) ?chs"
    unfolding fig(2) by (rule make_traces_zip)
  ultimately show ?thesis by blast
qed

lemma distinct_available: "distinct known \<Longrightarrow> distinct (available known df channels)"
  by (auto simp: available_def Let_def split: option.splits)

lemma to_mv_columns_exact:
  assumes "numeric_table d" and "distinct chs"
  shows "columns (fst (to_mv chs d))
       = columns d @ filter (\<lambda>c. c \<notin> set (columns d)) (map (\<lambda>ch. ch @ ''_mV'') chs)"
  using assms
proof (induction chs arbitrary: d)
  case Nil
  then show ?case by simp
next
  case (Cons ch chs)
  let ?d = "assign (ch @ ''_mV'') (\<lambda>r. scale_mv (cell_of r ch)) d"
  have nt: "\<not> has_text d ch" by (rule numeric_no_text[OF Cons.prems(1)])
  have nd: "numeric_table ?d" by (rule numeric_assign[OF Cons.prems(1)])
  from Cons.prems(2) have dc: "distinct chs" and fresh: "ch @ ''_mV'' \<notin> set (map (\<lambda>ch. ch @ ''_mV'') chs)"
    by auto
  have "columns (fst (to_mv (ch # chs) d)) = columns (fst (to_mv chs ?d))" using nt by simp
  also have "\<dots> = columns ?d @ filter (\<lambda>c. c \<notin> set (columns ?d)) (map (\<lambda>ch. ch @ ''_mV'') chs)"
    by (rule Cons.IH[OF nd dc])
  also have "\<dots> = columns d @ filter (\<lambda>c. c \<notin> set (columns d)) (map (\<lambda>ch. ch @ ''_mV'') (ch # chs))"
  proof (cases "ch @ ''_mV'' \<in> set (columns d)")
    case True
    then show ?thesis by (simp add: assign_columns)
  next
    case False
    have "filter (\<lambda>c. c \<noteq> ch @ ''_mV'' \<and> c \<notin> set (columns d)) (map (\<lambda>ch. ch @ ''_mV'') chs)
        = filter (\<lambda>c. c \<notin> set (columns d)) (map (\<lambda>ch. ch @ ''_mV'') chs)"
      using fresh by (intro filter_cong) auto
    then show ?thesis using False by (simp add: assign_columns)
  qed
  finally show ?case .
qed

text \<open>Mode \<open>mv\<close> on a numeric table: the table after the call.\<close>

lemma create_plot_mv_table:
  assumes "numeric_table df"
  shows "fst (create_plot df title ''mv'' channels rng)
       = (if available cm_channels df channels \<noteq> []
          then assign ''CM_mV'' (\<lambda>r. scale_mv (cell_of r ''CM''))
                 (fst (to_mv (available ecg_channels df channels) df))
          else fst (to_mv (available ecg_channels df channels) df))"
proof -
  from to_mv_numeric[OF assms ecg_separate[of df channels]]
  have e: "snd (to_mv (available ecg_channels df channels) df) = None"
    and n1: "numeric_table (fst (to_mv (available ecg_channels df channels) df))" by blast+
  show ?thesis
    using e numeric_no_text[OF n1, of "''CM''"] by (simp add: create_plot_table Let_def)
qed

lemma create_plot_mv_writes:
  assumes "numeric_table df"
  shows "columns (fst (create_plot df title ''mv'' channels rng))
           = columns df @ filter (\<lambda>c. c \<notin> set (columns df)) (written_columns df channels)
       \<and> (\<forall>ch \<in> set (available ecg_channels df channels).
             get_column (fst (create_plot df title ''mv'' channels rng)) (ch @ ''_mV'')
               = map scale_mv (get_column df ch))
       \<and> (available cm_channels df channels \<noteq> [] \<longrightarrow>
             get_column (fst (create_plot df title ''mv'' channels rng)) ''CM_mV''
               = map scale_mv (get_column df ''CM''))
       \<and> (\<forall>c. c \<notin> set (written_columns df channels) \<longrightarrow>
             get_column (fst (create_plot df title ''mv'' channels rng)) c = get_column df c)"
proof -
  let ?chs = "available ecg_channels df channels"
  let ?df1 = "fst (to_mv ?chs df)"
  let ?df2 = "assign ''CM_mV'' (\<lambda>r. scale_mv (cell_of r ''CM'')) ?df1"
  let ?mv = "map (\<lambda>ch. ch @ ''_mV'') ?chs"
  from to_mv_numeric[OF assms ecg_separate[of df channels]]
  have n1: "numeric_table ?df1"
    and y1: "\<forall>ch \<in> set ?chs. get_column ?df1 (ch @ ''_mV'') = map scale_mv (get_column df ch)"
    by blast+
  have "distinct ?chs" by (rule distinct_available) (simp add: ecg_channels_def)
  from to_mv_columns_exact[OF assms this]
  have c1: "columns ?df1 = columns df @ filter (\<lambda>c. c \<notin> set (columns df)) ?mv" .
  have o1: "get_column ?df1 c = get_column df c" if "c \<notin> set ?mv" for c
    using that by (intro to_mv_other) simp
  have cm_fresh: "''CM_mV'' \<notin> set ?mv" using ecg_not_special[of _ df channels] by fastforce
  have cm_src: "''CM'' \<notin> set ?mv" using available_subset[of ecg_channels df channels]
    by (auto simp: ecg_channels_def)
  show ?thesis
  proof (cases "available cm_channels df channels = []")
    case True
    then have t: "fst (create_plot df title ''mv'' channels rng) = ?df1"
      by (simp add: create_plot_mv_table[OF assms])
    from True have w: "written_columns df channels = ?mv" by (simp add: written_columns_def)
    show ?thesis unfolding t w using c1 y1 o1 True by simp
  next
    case False
    then have t: "fst (create_plot df title ''mv'' channels rng) = ?df2"
      by (simp add: create_plot_mv_table[OF assms])
    from False have w: "written_columns df channels = ?mv @ [''CM_mV'']"
      by (simp add: written_columns_def)
    have c2: "columns ?df2 = columns df @ filter (\<lambda>c. c \<notin> set (columns df)) (?mv @ [''CM_mV''])"
      using cm_fresh by (auto simp: assign_columns c1)
    have y2: "\<forall>ch \<in> set ?chs. get_column ?df2 (ch @ ''_mV'') = map scale_mv (get_column df ch)"
      using y1 ecg_not_special[of _ df channels] by (simp add: assign_other)
    have "get_column ?df2 ''CM_mV'' = map scale_mv (get_column ?df1 ''CM'')"
      by (rule assign_scale_column[OF n1])
    then have cm: "get_column ?df2 ''CM_mV'' = map scale_mv (get_column df ''CM'')"
      using o1[OF cm_src] by simp
    have o2: "get_column ?df2 c = get_column df c" if "c \<notin> set (?mv @ [''CM_mV''])" for c
      using that o1[of c] by (simp add: assign_other)
    show ?thesis unfolding t w using c2 y2 cm o2 False by simp
  qed
qed

text \<open>
  C6, amended. In a unit mode other than \<open>mv\<close>, \<open>create_plot\<close> leaves the loaded table as
  it was. In mode \<open>mv\<close> it writes into the loaded table: on a numeric table, as
  \<open>load_data\<close> returns, the table after the call has the columns it had, followed by those
  of \<open>ch_mV\<close> for the plotted ECG channels \<open>ch\<close> and \<open>CM_mV\<close> when \<open>CM\<close> is plotted that it
  did not have; each column \<open>ch_mV\<close> holds the values of \<open>ch\<close> divided by 1000, \<open>CM_mV\<close>
  those of \<open>CM\<close>, and every other column holds what it held. On every table and in every
  mode no column and no row is removed, the index labels stay, and no cell of a column
  other than \<open>X1:LEOG_mV\<close>, \<open>X2:REOG_mV\<close> and \<open>CM_mV\<close> changes.
\<close>

theorem create_plot_table_effect:
  "(ecg_units \<noteq> ''mv'' \<longrightarrow> fst (create_plot df title ecg_units channels rng) = df)
   \<and> (\<exists>extra. columns (fst (create_plot df title ecg_units channels rng)) = columns df @ extra
              \<and> set extra \<subseteq> mv_columns)
   \<and> map fst (rows (fst (create_plot df title ecg_units channels rng))) = map fst (rows df)
   \<and> (\<forall>c. c \<notin> mv_columns \<longrightarrow>
          get_column (fst (create_plot df title ecg_units channels rng)) c = get_column df c)
   \<and> (numeric_table df \<longrightarrow>
        columns (fst (create_plot df title ''mv'' channels rng))
           = columns df @ filter (\<lambda>c. c \<notin> set (columns df)) (written_columns df channels)
        \<and> (\<forall>ch \<in> set (available ecg_channels df channels).
             get_column (fst (create_plot df title ''mv'' channels rng)) (ch @ ''_mV'')
               = map scale_mv (get_column df ch))
        \<and> (available cm_channels df channels \<noteq> [] \<longrightarrow>
             get_column (fst (create_plot df title ''mv'' channels rng)) ''CM_mV''
               = map scale_mv (get_column df ''CM''))
        \<and> (\<forall>c. c \<notin> set (written_columns df channels) \<longrightarrow>
             get_column (fst (create_plot df title ''mv'' channels rng)) c = get_column df c))"
  using create_plot_frame[of ecg_units df title channels rng] create_plot_mv_writes[of df title channels rng]
  by blast

lemma numeric_ex_ecg: "numeric_table ex_ecg"
  by (simp add: numeric_table_def ex_ecg_def is_text_def)

theorem create_plot_table_effect_witness:
  "''uv'' \<noteq> ''mv'' \<and> fst (create_plot ex_ecg ''t'' ''uv'' None None) = ex_ecg
   \<and> numeric_table ex_ecg
   \<and> columns (fst (create_plot ex_ecg ''t'' ''mv'' None None))
       = [''Time'', ''Fp1'', ''X1:LEOG'', ''CM'', ''X1:LEOG_mV'', ''CM_mV'']
   \<and> get_column (fst (create_plot ex_ecg ''t'' ''mv'' None None)) ''X1:LEOG_mV''
       = [Float 1.5, Float (-0.25)]
   \<and> get_column (fst (create_plot ex_ecg ''t'' ''mv'' None None)) ''CM_mV'' = [Float 5, Float 5.2]
   \<and> ''Time'' \<notin> mv_columns
   \<and> get_column (fst (create_plot ex_ecg ''t'' ''mv'' None None)) ''Time'' = get_column ex_ecg ''Time''"
proof -
  have a: "''uv'' \<noteq> ''mv''" by simp
  have b: "''Time'' \<notin> mv_columns" by (simp add: mv_columns_def)
  have av: "available ecg_channels ex_ecg None = [''X1:LEOG'']"
    "available cm_channels ex_ecg None = [''CM'']"
    by (simp_all add: available_def ecg_channels_def cm_channels_def ex_ecg_def)
  have w: "columns ex_ecg @ filter (\<lambda>c. c \<notin> set (columns ex_ecg)) (written_columns ex_ecg None)
      = [''Time'', ''Fp1'', ''X1:LEOG'', ''CM'', ''X1:LEOG_mV'', ''CM_mV'']"
    by (simp add: written_columns_def av) (simp add: ex_ecg_def)
  have x: "map scale_mv (get_column ex_ecg ''X1:LEOG'') = [Float 1.5, Float (-0.25)]"
    "map scale_mv (get_column ex_ecg ''CM'') = [Float 5, Float 5.2]"
    by (simp_all add: ex_ecg_def get_column_def cell_of_def scale_mv_def)
  from create_plot_table_effect [of "''uv''" ex_ecg "''t''" None None]
       create_plot_table_effect [of "''mv''" ex_ecg "''t''" None None] a b numeric_ex_ecg
  show ?thesis by (simp add: av w x)
qed

text \<open>
  C9. On a numeric table with a \<open>Time\<close> column and at least one row, \<open>create_plot\<close>
  returns a figure. In mode \<open>mv\<close> the trace of each available ECG channel carries the
  channel's values divided by 1000 (the quotient of an integer or of a floating-point
  number is a floating-point number, and a missing value stays missing), so 1500 becomes
  1.5; in mode \<open>uv\<close> the trace carries the channel's values as they are, and the table is
  returned as it was.
\<close>

theorem create_plot_ecg_units:
  assumes "numeric_table df" and "''Time'' \<in> set (columns df)" and "rows df \<noteq> []"
  shows "(\<exists>df' fig. create_plot df title ''mv'' channels rng = (df', Inr fig)
            \<and> ecg_traces fig
              = map (\<lambda>ch. \<lparr>trace_name = ch, trace_x = get_column df ''Time'',
                           trace_y = map scale_mv (get_column df ch)\<rparr>)
                  (available ecg_channels df channels))
       \<and> (\<exists>fig. create_plot df title ''uv'' channels rng = (df, Inr fig)
            \<and> ecg_traces fig
              = map (\<lambda>ch. \<lparr>trace_name = ch, trace_x = get_column df ''Time'',
                           trace_y = get_column df ch\<rparr>)
                  (available ecg_channels df channels))
       \<and> scale_mv (Float v) = Float (v / 1000) \<and> scale_mv (Integer i) = Float (real_of_int i / 1000)
       \<and> scale_mv NaN = NaN
       \<and> scale_mv (Float 1500) = Float 1.5 \<and> scale_mv (Integer 1500) = Float 1.5"
  using create_plot_mv[OF assms] create_plot_uv[OF assms] by (simp add: scale_mv_def)

theorem create_plot_ecg_units_witness:
  "numeric_table ex_ecg \<and> ''Time'' \<in> set (columns ex_ecg) \<and> rows ex_ecg \<noteq> []
   \<and> (\<exists>df' fig. create_plot ex_ecg ''t'' ''mv'' None None = (df', Inr fig)
            \<and> ecg_traces fig
              = [\<lparr>trace_name = ''X1:LEOG'', trace_x = [Float 0, Float 0.1], trace_y = [Float 1.5, Float (-0.25)]\<rparr>])"
proof -
  have a: "''Time'' \<in> set (columns ex_ecg)" by (simp add: ex_ecg_def)
  have b: "rows ex_ecg \<noteq> []" by (simp add: ex_ecg_def)
  have c: "map (\<lambda>ch. \<lparr>trace_name = ch, trace_x = get_column ex_ecg ''Time'',
                           trace_y = map scale_mv (get_column ex_ecg ch)\<rparr>)
                  (available ecg_channels ex_ecg None)
      = [\<lparr>trace_name = ''X1:LEOG'', trace_x = [Float 0, Float 0.1], trace_y = [Float 1.5, Float (-0.25)]\<rparr>]"
    by (simp add: available_def ecg_channels_def ex_ecg_def get_column_def cell_of_def scale_mv_def)
  from create_plot_ecg_units [OF numeric_ex_ecg a b, of "''t''" None None] numeric_ex_ecg a b c
  show ?thesis by auto
qed

section \<open>Properties of save_plot\<close>

lemma path_join_suffix: "\<exists>p. \<forall>f. f \<noteq> [] \<longrightarrow> path_join d f = p @ f"
proof (cases "d = []")
  case True
  then have "\<forall>f. path_join d f = [] @ f" by (simp add: path_join_def)
  then show ?thesis by blast
next
  case False
  show ?thesis
  proof (cases "last d = CHR ''/''")
    case True
    with False have "\<forall>f. path_join d f = d @ f" by (simp add: path_join_def)
    then show ?thesis by blast
  next
    case l: False
    with False have "\<forall>f. path_join d f = (d @ ''/'') @ f" by (simp add: path_join_def)
    then show ?thesis by blast
  qed
qed

lemma paths_differ:
  "path_join d ''multichannel_plot.png'' \<noteq> path_join d ''multichannel_plot.html''"
  "path_join d ''multichannel_plot.pdf'' \<noteq> path_join d ''multichannel_plot.html''"
  using path_join_suffix[of d] by auto

lemma printed_print: "printed (print m w) = printed w @ [m]"
  by (simp add: print_def)

lemma files_write_file: "files (write_file p a w) = (files w)(p \<mapsto> a)"
  by (simp add: write_file_def)

lemma files_static_skipped: "files (static_skipped e w) = files w"
  by (simp add: static_skipped_def files_print)

lemma printed_static_skipped: "static_note e \<in> set (printed (static_skipped e w))"
  by (simp add: static_skipped_def printed_print static_note_def)

text \<open>
  C8 as stated fails for an output directory that cannot be made: \<open>os.makedirs\<close> is called
  first and outside the \<open>try\<close>, so its exception leaves \<open>save_plot\<close> before anything is
  written. The empty path is such a directory, also when no other call would raise.
\<close>

theorem save_plot_no_directory_counterexample:
  "save_plot all_ok ex_fig [] empty_world
     = (empty_world, Inl (FileNotFoundError (''[Errno 2] No such file or directory: '' @ quoted [])))
   \<and> files (fst (save_plot all_ok ex_fig [] empty_world)) ''multichannel_plot.html'' = None"
  by (simp add: save_plot_def makedirs_def empty_world_def)

text \<open>
  C8, amended. For every chart and output directory: when the directory can be made and
  the interactive document can be written (neither \<open>os.makedirs\<close> nor \<open>write_html\<close>
  raises), \<open>save_plot\<close> returns normally whatever the two static exports do, the
  interactive document is in its file afterwards, and a static export that raised is
  reported in a printed line and not escalated. When \<open>os.makedirs\<close> or \<open>write_html\<close>
  raises, the exception is escalated to the caller and nothing is written or printed.
\<close>

theorem save_plot_interactive:
  "(makedirs io output_dir = None \<and> write_html_raises io = None \<longrightarrow>
      snd (save_plot io fig output_dir w) = Inr ()
      \<and> files (fst (save_plot io fig output_dir w)) (path_join output_dir ''multichannel_plot.html'')
           = Some (Html fig)
      \<and> (\<forall>e. write_png_raises io = Some e \<or> (write_png_raises io = None \<and> write_pdf_raises io = Some e)
              \<longrightarrow> static_note e \<in> set (printed (fst (save_plot io fig output_dir w)))))
   \<and> (\<forall>e. makedirs io output_dir = Some e \<or> (makedirs io output_dir = None \<and> write_html_raises io = Some e)
          \<longrightarrow> save_plot io fig output_dir w = (w, Inl e))"
proof (intro conjI impI allI)
  assume ok: "makedirs io output_dir = None \<and> write_html_raises io = None"
  show "snd (save_plot io fig output_dir w) = Inr ()"
    using ok by (simp add: save_plot_def Let_def split: option.splits)
  show "files (fst (save_plot io fig output_dir w)) (path_join output_dir ''multichannel_plot.html'')
           = Some (Html fig)"
    using ok paths_differ[of output_dir]
    by (simp add: save_plot_def Let_def files_static_skipped files_print files_write_file
          split: option.splits)
next
  fix e
  assume ok: "makedirs io output_dir = None \<and> write_html_raises io = None"
    and st: "write_png_raises io = Some e \<or> (write_png_raises io = None \<and> write_pdf_raises io = Some e)"
  show "static_note e \<in> set (printed (fst (save_plot io fig output_dir w)))"
    using ok st by (auto simp: save_plot_def Let_def printed_static_skipped)
next
  fix e
  assume "makedirs io output_dir = Some e \<or> (makedirs io output_dir = None \<and> write_html_raises io = Some e)"
  then show "save_plot io fig output_dir w = (w, Inl e)"
    by (auto simp: save_plot_def Let_def)
qed

theorem save_plot_interactive_witness:
  "makedirs no_kaleido ''output'' = None \<and> write_html_raises no_kaleido = None
   \<and> write_png_raises no_kaleido = Some (ValueError ''kaleido is required'')
   \<and> snd (save_plot no_kaleido ex_fig ''output'' empty_world) = Inr ()
   \<and> files (fst (save_plot no_kaleido ex_fig ''output'' empty_world)) ''output/multichannel_plot.html''
       = Some (Html ex_fig)
   \<and> static_note (ValueError ''kaleido is required'')
       \<in> set (printed (fst (save_plot no_kaleido ex_fig ''output'' empty_world)))
   \<and> makedirs all_ok [] = Some (FileNotFoundError (''[Errno 2] No such file or directory: '' @ quoted []))
   \<and> save_plot all_ok ex_fig [] empty_world
       = (empty_world, Inl (FileNotFoundError (''[Errno 2] No such file or directory: '' @ quoted [])))"
proof -
  have a: "makedirs no_kaleido ''output'' = None" by (simp add: makedirs_def no_kaleido_def)
  have b: "write_html_raises no_kaleido = None" by (simp add: no_kaleido_def)
  have c: "write_png_raises no_kaleido = Some (ValueError ''kaleido is required'')"
    by (simp add: no_kaleido_def)
  have d: "makedirs all_ok [] = Some (FileNotFoundError (''[Errno 2] No such file or directory: '' @ quoted []))"
    by (simp add: makedirs_def)
  have p: "path_join ''output'' ''multichannel_plot.html'' = ''output/multichannel_plot.html''"
    by (simp add: path_join_def)
  from save_plot_interactive [of no_kaleido "''output''" ex_fig empty_world]
       save_plot_interactive [of all_ok "[]" ex_fig empty_world] a b c d p
  show ?thesis by auto
qed

end
